theory Spec2Isabelle
  imports Complex_Main "HOL-Library.Word" "HOL-Library.Monad_Syntax"
begin

section \<open>JavaScript numbers\<close>

text \<open>
  Every number of \<^verbatim>\<open>page.tsx\<close> is a JavaScript \<^verbatim>\<open>number\<close>. A finite number is
  modelled by the real it denotes (rounding to the nearest double, or to single precision
  in a \<^verbatim>\<open>Float32Array\<close>, is not modelled, and there is one zero, the positive one);
  the three non-finite values are kept, since the source divides by durations that may be
  zero and reads arrays out of range. Counters and lengths are natural numbers.
\<close>

datatype jsnum = Fin real | PInf | NInf | NaN

text \<open>The infinity (or NaN) with the sign of a real.\<close>

definition signed_inf :: "real \<Rightarrow> jsnum" where
  "signed_inf s = (if 0 < s then PInf else if s < 0 then NInf else NaN)"

fun js_sign :: "jsnum \<Rightarrow> real" where
  "js_sign (Fin a) = sgn a"
| "js_sign PInf = 1"
| "js_sign NInf = - 1"
| "js_sign NaN = 0"

text \<open>Truncation towards zero, as in \<^verbatim>\<open>ToIntegerOrInfinity\<close> and in the remainder.\<close>

definition js_trunc :: "real \<Rightarrow> int" where
  "js_trunc x = (if 0 \<le> x then \<lfloor>x\<rfloor> else \<lceil>x\<rceil>)"

text \<open>\<^verbatim>\<open>a * b\<close>\<close>

fun js_mul :: "jsnum \<Rightarrow> jsnum \<Rightarrow> jsnum" where
  "js_mul NaN y = NaN"
| "js_mul x NaN = NaN"
| "js_mul (Fin a) (Fin b) = Fin (a * b)"
| "js_mul x y = signed_inf (js_sign x * js_sign y)"

text \<open>\<^verbatim>\<open>a / b\<close>: a finite number over zero is an infinity, zero over zero is NaN.\<close>

fun js_div :: "jsnum \<Rightarrow> jsnum \<Rightarrow> jsnum" where
  "js_div NaN y = NaN"
| "js_div x NaN = NaN"
| "js_div (Fin a) (Fin b) = (if b = 0 then signed_inf a else Fin (a / b))"
| "js_div (Fin a) y = Fin 0"
| "js_div x (Fin b) = signed_inf (js_sign x * (if b < 0 then - 1 else 1))"
| "js_div x y = NaN"

text \<open>\<^verbatim>\<open>a % b\<close>: the remainder has the sign of the dividend; a zero divisor gives NaN.\<close>

fun js_mod :: "jsnum \<Rightarrow> jsnum \<Rightarrow> jsnum" where
  "js_mod (Fin a) (Fin b) =
     (if b = 0 then NaN else Fin (a - b * of_int (js_trunc (a / b))))"
| "js_mod (Fin a) PInf = Fin a"
| "js_mod (Fin a) NInf = Fin a"
| "js_mod x y = NaN"

text \<open>\<^verbatim>\<open>Math.floor\<close>\<close>

fun Math_floor :: "jsnum \<Rightarrow> jsnum" where
  "Math_floor (Fin a) = Fin (of_int \<lfloor>a\<rfloor>)"
| "Math_floor x = x"

text \<open>\<^verbatim>\<open>a < b\<close>: false as soon as one side is NaN.\<close>

fun js_lt :: "jsnum \<Rightarrow> jsnum \<Rightarrow> bool" where
  "js_lt NaN y = False"
| "js_lt x NaN = False"
| "js_lt (Fin a) (Fin b) = (a < b)"
| "js_lt x PInf = (x \<noteq> PInf)"
| "js_lt NInf y = (y \<noteq> NInf)"
| "js_lt x y = False"

text \<open>\<^verbatim>\<open>Math.min\<close> and \<^verbatim>\<open>Math.max\<close>: NaN as soon as one argument is NaN.\<close>

fun Math_min :: "jsnum \<Rightarrow> jsnum \<Rightarrow> jsnum" where
  "Math_min NaN y = NaN"
| "Math_min x NaN = NaN"
| "Math_min x y = (if js_lt y x then y else x)"

fun Math_max :: "jsnum \<Rightarrow> jsnum \<Rightarrow> jsnum" where
  "Math_max NaN y = NaN"
| "Math_max x NaN = NaN"
| "Math_max x y = (if js_lt x y then y else x)"

text \<open>
  \<^verbatim>\<open>xs[i]\<close> on an array: the element when \<open>i\<close> is an index of the array, otherwise
  \<^verbatim>\<open>undefined\<close> (here \<open>None\<close>).
\<close>

fun js_index :: "'a list \<Rightarrow> jsnum \<Rightarrow> 'a option" where
  "js_index xs (Fin a) =
     (if 0 \<le> a \<and> a = of_int \<lfloor>a\<rfloor> \<and> nat \<lfloor>a\<rfloor> < length xs
      then Some (xs ! nat \<lfloor>a\<rfloor>) else None)"
| "js_index xs x = None"

text \<open>
  A sample read \<^verbatim>\<open>left[i]\<close> used as a number: \<^verbatim>\<open>undefined\<close> becomes NaN, both when
  stored in a \<^verbatim>\<open>Float32Array\<close> and as an argument of \<^verbatim>\<open>Math.min\<close>.
\<close>

definition sample_at :: "real list \<Rightarrow> jsnum \<Rightarrow> jsnum" where
  "sample_at xs i = (case js_index xs i of Some v \<Rightarrow> Fin v | None \<Rightarrow> NaN)"

section \<open>Data model\<close>

record ProcessedSignal =
  id_s :: string
  name :: string
  left :: "real list"
  right :: "real list"

datatype Tab = Single | Show

text \<open>
  The component state that the timeline, the renderers and the exporter read.
  \<open>currentTime\<close> is \<^verbatim>\<open>currentTimeRef.current\<close>, \<open>lastTime\<close> is
  \<^verbatim>\<open>lastTimeRef.current\<close>.
\<close>

record state =
  activeTab :: Tab
  playlist :: "ProcessedSignal list"
  singleSignal :: "ProcessedSignal option"
  showInterval :: real
  animateDuration :: real
  wavDuration :: real
  gain :: real
  currentTime :: real
  lastTime :: real

definition totalShowDuration :: "state \<Rightarrow> real" where
  "totalShowDuration st = real (length (playlist st)) * showInterval st"

definition hasData :: "state \<Rightarrow> bool" where
  "hasData st =
     (if activeTab st = Single then singleSignal st \<noteq> None else 0 < length (playlist st))"

section \<open>Configuration\<close>

text \<open>\<^verbatim>\<open>updateShowInterval\<close>\<close>

definition updateShowInterval :: "real \<Rightarrow> state \<Rightarrow> state" where
  "updateShowInterval val st =
     (let st1 = st\<lparr>showInterval := val\<rparr>
      in if val < animateDuration st then st1\<lparr>animateDuration := val\<rparr> else st1)"

section \<open>Real-time renderer\<close>

text \<open>
  The head of \<^verbatim>\<open>scriptNode.onaudioprocess\<close>: the active signal and the draw-in
  progress at play position \<open>time\<close>.
\<close>

definition audioResolve :: "state \<Rightarrow> real \<Rightarrow> ProcessedSignal option \<times> jsnum" where
  "audioResolve st time =
     (if activeTab st = Single then
        (singleSignal st,
         Math_min (Fin 1) (js_div (Fin time) (Fin (animateDuration st))))
      else
        (let idx = js_mod (Math_floor (js_div (Fin time) (Fin (showInterval st))))
                     (Fin (real (length (playlist st))));
             segmentTime = js_mod (Fin time) (Fin (showInterval st))
         in (js_index (playlist st) idx,
             Math_min (Fin 1) (js_div segmentTime (Fin (animateDuration st))))))"

text \<open>
  The scan loop over the output block. \<open>phase\<close> is the scan cursor, a counter that the
  closure of \<^verbatim>\<open>playAudio\<close> keeps between invocations; \<open>outL\<close> and \<open>outR\<close> are the two
  channels of the output buffer (a write beyond the end of a typed array is dropped).
\<close>

function audio_loop ::
  "ProcessedSignal \<Rightarrow> jsnum \<Rightarrow> nat \<Rightarrow> nat \<Rightarrow> jsnum list \<Rightarrow> jsnum list
     \<Rightarrow> nat \<times> jsnum list \<times> jsnum list" where
  "audio_loop sig progress i phase outL outR =
     (if i < length outL then
        (let signalLen = Fin (real (length (left sig)));
             signalIdx = js_mod (Fin (real phase)) signalLen
         in if js_lt signalIdx (js_mul signalLen progress)
            then audio_loop sig progress (i + 1) (phase + 1)
                   (outL[i := sample_at (left sig) signalIdx])
                   (outR[i := sample_at (right sig) signalIdx])
            else audio_loop sig progress (i + 1) (phase + 1)
                   (outL[i := Fin 0]) (outR[i := Fin 0]))
      else (phase, outL, outR))"
  by pat_completeness auto
termination
  by (relation "measure (\<lambda>(sig, progress, i, phase, outL, outR). length outL - i)") auto

declare audio_loop.simps [simp del]

text \<open>
  The pair that one round of the scan loop writes when the cursor is \<open>phase\<close> (the
  body of the loop, used to state what the loop does).
\<close>

definition scan_frame :: "ProcessedSignal \<Rightarrow> jsnum \<Rightarrow> nat \<Rightarrow> jsnum \<times> jsnum" where
  "scan_frame sig progress phase =
     (let signalLen = Fin (real (length (left sig)));
          signalIdx = js_mod (Fin (real phase)) signalLen
      in if js_lt signalIdx (js_mul signalLen progress)
         then (sample_at (left sig) signalIdx, sample_at (right sig) signalIdx)
         else (Fin 0, Fin 0))"

text \<open>
  One invocation of \<^verbatim>\<open>scriptNode.onaudioprocess\<close>: from the scan cursor and the
  output buffer as the host hands it over, to the cursor and the buffer afterwards.
\<close>

definition onaudioprocess ::
  "state \<Rightarrow> nat \<Rightarrow> jsnum list \<Rightarrow> jsnum list \<Rightarrow> nat \<times> jsnum list \<times> jsnum list" where
  "onaudioprocess st phase outL outR =
     (case audioResolve st (currentTime st) of
        (None, progress) \<Rightarrow> (phase, outL, outR)
      | (Some currentSignal, progress) \<Rightarrow>
          audio_loop currentSignal progress 0 phase outL outR)"

text \<open>
  The gain stage of \<^verbatim>\<open>playAudio\<close>: the script node is connected to a gain node
  whose value is \<open>gain\<close>, and the gain node to the destination; a gain node multiplies
  every sample by its value.
\<close>

definition gainNode :: "real \<Rightarrow> jsnum list \<Rightarrow> jsnum list" where
  "gainNode g block = map (js_mul (Fin g)) block"

definition audible ::
  "state \<Rightarrow> nat \<Rightarrow> jsnum list \<Rightarrow> jsnum list \<Rightarrow> jsnum list \<times> jsnum list" where
  "audible st phase outL outR =
     (gainNode (gain st) (fst (snd (onaudioprocess st phase outL outR))),
      gainNode (gain st) (snd (snd (onaudioprocess st phase outL outR))))"

section \<open>Visualization sampler\<close>

text \<open>
  The head of the visualization effect: \<open>None\<close> when it returns at once (show mode
  with an empty playlist), otherwise the signal and the progress.
\<close>

definition visualResolve :: "state \<Rightarrow> real \<Rightarrow> (ProcessedSignal option \<times> jsnum) option" where
  "visualResolve st time =
     (if activeTab st = Single then
        Some (singleSignal st,
              Math_min (Fin 1) (js_div (Fin time) (Fin (animateDuration st))))
      else if length (playlist st) = 0 then None
      else
        (let idx = js_mod (Math_floor (js_div (Fin time) (Fin (showInterval st))))
                     (Fin (real (length (playlist st))));
             segmentTime = js_mod (Fin time) (Fin (showInterval st))
         in Some (js_index (playlist st) idx,
                  Math_min (Fin 1) (js_div segmentTime (Fin (animateDuration st))))))"

section \<open>Timeline clock\<close>

text \<open>The looping check of the tick, on the updated position.\<close>

definition wraps :: "state \<Rightarrow> real \<Rightarrow> bool" where
  "wraps st newTime = (activeTab st = Show \<and> totalShowDuration st \<le> newTime)"

text \<open>
  One tick of the timeline loop (\<^verbatim>\<open>update\<close>), \<open>now\<close> being the value of
  \<^verbatim>\<open>performance.now()\<close> in milliseconds.
\<close>

definition update :: "state \<Rightarrow> real \<Rightarrow> state" where
  "update st now =
     (let delta = (now - lastTime st) / 1000;
          newTime = currentTime st + delta
      in if wraps st newTime then st\<lparr>lastTime := now, currentTime := 0\<rparr>
         else st\<lparr>lastTime := now, currentTime := newTime\<rparr>)"

section \<open>Offline exporter\<close>

subsection \<open>The output buffer\<close>

type_synonym byte = "8 word"

text \<open>
  The conversions of \<^verbatim>\<open>DataView.setInt16\<close>, \<^verbatim>\<open>setUint16\<close> and \<^verbatim>\<open>setUint32\<close>: a
  non-finite number is 0, a finite one is truncated and taken modulo the width.
\<close>

fun ToInt16 :: "jsnum \<Rightarrow> 16 word" where
  "ToInt16 (Fin x) = word_of_int (js_trunc x)"
| "ToInt16 v = 0"

fun ToUint32 :: "jsnum \<Rightarrow> 32 word" where
  "ToUint32 (Fin x) = word_of_int (js_trunc x)"
| "ToUint32 v = 0"

text \<open>
  \<^verbatim>\<open>ToIndex\<close>, applied to the length of a new \<^verbatim>\<open>ArrayBuffer\<close>: a negative length
  raises a RangeError (\<open>None\<close>).
\<close>

definition ToIndex :: "real \<Rightarrow> nat option" where
  "ToIndex x = (if js_trunc x < 0 then None else Some (nat (js_trunc x)))"

text \<open>
  The writes of a \<^verbatim>\<open>DataView\<close>, little-endian where the source asks for it. A write
  that does not fit in the buffer raises a RangeError (\<open>None\<close>).
\<close>

definition setUint8 :: "byte list \<Rightarrow> nat \<Rightarrow> byte \<Rightarrow> byte list option" where
  "setUint8 buf offset v = (if offset + 1 \<le> length buf then Some (buf[offset := v]) else None)"

definition set16 :: "byte list \<Rightarrow> nat \<Rightarrow> 16 word \<Rightarrow> byte list option" where
  "set16 buf offset w =
     (if offset + 2 \<le> length buf
      then Some (buf[offset := ucast w, offset + 1 := ucast (drop_bit 8 w)])
      else None)"

definition setInt16 :: "byte list \<Rightarrow> nat \<Rightarrow> jsnum \<Rightarrow> byte list option" where
  "setInt16 buf offset v = set16 buf offset (ToInt16 v)"

definition setUint16 :: "byte list \<Rightarrow> nat \<Rightarrow> jsnum \<Rightarrow> byte list option" where
  "setUint16 buf offset v = set16 buf offset (ToInt16 v)"

definition setUint32 :: "byte list \<Rightarrow> nat \<Rightarrow> jsnum \<Rightarrow> byte list option" where
  "setUint32 buf offset v =
     (let w = ToUint32 v
      in if offset + 4 \<le> length buf
         then Some (buf[offset := ucast w, offset + 1 := ucast (drop_bit 8 w),
                        offset + 2 := ucast (drop_bit 16 w),
                        offset + 3 := ucast (drop_bit 24 w)])
         else None)"

text \<open>\<^verbatim>\<open>writeString\<close>: one \<^verbatim>\<open>setUint8\<close> for each character code.\<close>

fun writeString :: "byte list \<Rightarrow> nat \<Rightarrow> string \<Rightarrow> byte list option" where
  "writeString buf offset [] = Some buf"
| "writeString buf offset (c # cs) =
     do { b \<leftarrow> setUint8 buf offset (of_char c); writeString b (offset + 1) cs }"

text \<open>Reading a little-endian unsigned 32-bit field back.\<close>

definition getUint32 :: "byte list \<Rightarrow> nat \<Rightarrow> nat" where
  "getUint32 buf offset =
     unat (buf ! offset) + 256 * unat (buf ! (offset + 1))
       + 65536 * unat (buf ! (offset + 2)) + 16777216 * unat (buf ! (offset + 3))"

subsection \<open>\<^verbatim>\<open>downloadWav\<close>\<close>

definition sampleRate :: real where
  "sampleRate = 48000"

definition bytesPerSample :: real where
  "bytesPerSample = 2"

definition channels :: real where
  "channels = 2"

definition totalSamples :: "state \<Rightarrow> real" where
  "totalSamples st = sampleRate * wavDuration st"

definition dataSize :: "state \<Rightarrow> real" where
  "dataSize st = totalSamples st * channels * bytesPerSample"

text \<open>The 44 bytes of the header, written in the order of the source.\<close>

definition writeHeader :: "real \<Rightarrow> byte list \<Rightarrow> byte list option" where
  "writeHeader dSize buf =
     do {
       b \<leftarrow> writeString buf 0 ''RIFF'';
       b \<leftarrow> setUint32 b 4 (Fin (36 + dSize));
       b \<leftarrow> writeString b 8 ''WAVE'';
       b \<leftarrow> writeString b 12 ''fmt '';
       b \<leftarrow> setUint32 b 16 (Fin 16);
       b \<leftarrow> setUint16 b 20 (Fin 1);
       b \<leftarrow> setUint16 b 22 (Fin channels);
       b \<leftarrow> setUint32 b 24 (Fin sampleRate);
       b \<leftarrow> setUint32 b 28 (Fin (sampleRate * channels * bytesPerSample));
       b \<leftarrow> setUint16 b 32 (Fin (channels * bytesPerSample));
       b \<leftarrow> setUint16 b 34 (Fin 16);
       b \<leftarrow> writeString b 36 ''data'';
       setUint32 b 40 (Fin dSize)
     }"

text \<open>
  The signal and the progress at output sample time \<open>timeAtSample\<close>. Reading
  \<^verbatim>\<open>.left\<close> of a signal that is \<^verbatim>\<open>null\<close> or \<^verbatim>\<open>undefined\<close> raises a TypeError
  (\<open>None\<close>).
\<close>

definition exportResolve :: "state \<Rightarrow> real \<Rightarrow> (ProcessedSignal \<times> jsnum) option" where
  "exportResolve st timeAtSample =
     (if activeTab st = Single then
        (case singleSignal st of
           None \<Rightarrow> None
         | Some currentSignal \<Rightarrow>
             Some (currentSignal,
                   Math_min (Fin 1) (js_div (Fin timeAtSample) (Fin (animateDuration st)))))
      else
        (let showLoopTime =
               (if 0 < totalShowDuration st
                then js_mod (Fin timeAtSample) (Fin (totalShowDuration st)) else Fin 0);
             idx = js_mod (Math_floor (js_div showLoopTime (Fin (showInterval st))))
                     (Fin (real (length (playlist st))));
             segmentTime = js_mod showLoopTime (Fin (showInterval st))
         in case js_index (playlist st) idx of
              None \<Rightarrow> None
            | Some currentSignal \<Rightarrow>
                Some (currentSignal,
                      Math_min (Fin 1) (js_div segmentTime (Fin (animateDuration st))))))"

text \<open>
  Clamping and scaling of one sample: the number handed to \<^verbatim>\<open>setInt16\<close>, i.e.
  \<^verbatim>\<open>l < 0 ? l * 0x8000 : l * 0x7FFF\<close> with \<^verbatim>\<open>l = Math.max(-1, Math.min(1, v))\<close>.
\<close>

definition quantize :: "jsnum \<Rightarrow> jsnum" where
  "quantize v =
     (let l = Math_max (Fin (- 1)) (Math_min (Fin 1) v)
      in if js_lt l (Fin 0) then js_mul l (Fin 32768) else js_mul l (Fin 32767))"

text \<open>
  The body of the export loop at sample index \<open>i\<close>: the two numbers handed to
  \<^verbatim>\<open>setInt16\<close>, left then right.
\<close>

definition exportFrame :: "state \<Rightarrow> nat \<Rightarrow> (jsnum \<times> jsnum) option" where
  "exportFrame st i =
     (case exportResolve st (real i / sampleRate) of
        None \<Rightarrow> None
      | Some (currentSignal, progress) \<Rightarrow>
          (let len = Fin (real (length (left currentSignal)));
               window = (if activeTab st = Single then wavDuration st else showInterval st);
               localIndex = js_mod (Fin (real i)) (Fin (sampleRate * window));
               sigIdx = Math_floor (js_mod localIndex len)
           in if js_lt (js_div localIndex (Fin sampleRate)) (js_mul (Fin window) progress)
              then Some (quantize (sample_at (left currentSignal) (js_mod sigIdx len)),
                         quantize (sample_at (right currentSignal) (js_mod sigIdx len)))
              else Some (Fin 0, Fin 0)))"

function export_loop :: "state \<Rightarrow> nat \<Rightarrow> nat \<Rightarrow> byte list \<Rightarrow> byte list option" where
  "export_loop st i offset buf =
     (if real i < totalSamples st then
        (case exportFrame st i of
           None \<Rightarrow> None
         | Some (l, r) \<Rightarrow>
             (case setInt16 buf offset l of
                None \<Rightarrow> None
              | Some b1 \<Rightarrow>
                  (case setInt16 b1 (offset + 2) r of
                     None \<Rightarrow> None
                   | Some b2 \<Rightarrow> export_loop st (i + 1) (offset + 2 + 2) b2)))
      else Some buf)"
  by pat_completeness auto
termination
proof (relation "measure (\<lambda>(st, i, offset, buf). nat \<lceil>totalSamples st\<rceil> - i)", goal_cases)
  case 1
  show ?case by simp
next
  case (2 st i offset buf fr l r b1 b2)
  have "real i < of_int \<lceil>totalSamples st\<rceil>"
    using 2(1) le_of_int_ceiling [of "totalSamples st"] by linarith
  then have "i < nat \<lceil>totalSamples st\<rceil>"
    by linarith
  then show ?case by simp
qed

declare export_loop.simps [simp del]

text \<open>
  What one call of \<^verbatim>\<open>downloadWav\<close> does: the alert it shows, the length of the
  buffer it allocates, and the bytes of the file it hands to the browser (the file name is
  not modelled). \<open>maxAlloc\<close> is the largest buffer the host can allocate; any exception
  inside the \<^verbatim>\<open>try\<close> block ends in the second alert.
\<close>

record export_outcome =
  alert :: "string option"
  allocated :: "nat option"
  download :: "byte list option"

definition limit_alert :: string where
  "limit_alert = ''WAV limit exceeded (Max 4GB). Please reduce duration.''"

definition failure_alert :: string where
  "failure_alert = ''Memory allocation failed.''"

definition downloadWav :: "state \<Rightarrow> nat \<Rightarrow> export_outcome" where
  "downloadWav st maxAlloc =
     (if \<not> hasData st then \<lparr>alert = None, allocated = None, download = None\<rparr>
      else if 4294967295 - 44 < dataSize st then
        \<lparr>alert = Some limit_alert, allocated = None, download = None\<rparr>
      else
        (case ToIndex (44 + dataSize st) of
           None \<Rightarrow> \<lparr>alert = Some failure_alert, allocated = None, download = None\<rparr>
         | Some n \<Rightarrow>
             if maxAlloc < n then
               \<lparr>alert = Some failure_alert, allocated = None, download = None\<rparr>
             else
               (case do { b \<leftarrow> writeHeader (dataSize st) (replicate n 0);
                          export_loop st 0 44 b } of
                  None \<Rightarrow> \<lparr>alert = Some failure_alert, allocated = Some n, download = None\<rparr>
                | Some bytes \<Rightarrow> \<lparr>alert = None, allocated = Some n, download = Some bytes\<rparr>)))"

section \<open>Properties of the specification, as predicates\<close>

text \<open>A progress value that is a number of the interval from 0 to 1.\<close>

fun unit_interval :: "jsnum \<Rightarrow> bool" where
  "unit_interval (Fin p) = (0 \<le> p \<and> p \<le> 1)"
| "unit_interval v = False"

text \<open>
  The gate of the real-time renderer as the specification words it: a frame is visible
  when \<open>idx < floor(signal.length * progress)\<close>.
\<close>

definition spec_visible :: "nat \<Rightarrow> real \<Rightarrow> nat \<Rightarrow> bool" where
  "spec_visible signalLen progress idx = (int idx < \<lfloor>real signalLen * progress\<rfloor>)"

text \<open>A number that a signed 16-bit integer holds without wrapping around.\<close>

fun int16_range :: "jsnum \<Rightarrow> bool" where
  "int16_range (Fin q) = (- 32768 \<le> q \<and> q \<le> 32767)"
| "int16_range v = False"

section \<open>Example states\<close>

definition sig3 :: ProcessedSignal where
  "sig3 = \<lparr>id_s = ''single'', name = ''a.svg'',
           left = [1 / 2, 1 / 2, 1 / 2], right = [1 / 4, 1 / 4, 1 / 4]\<rparr>"

definition single_state :: state where
  "single_state =
     \<lparr>activeTab = Single, playlist = [], singleSignal = Some sig3, showInterval = 5,
      animateDuration = 2, wavDuration = 1, gain = 1, currentTime = 1, lastTime = 0\<rparr>"

definition show_state :: state where
  "show_state =
     \<lparr>activeTab = Show, playlist = [sig3, sig3, sig3], singleSignal = None,
      showInterval = 5, animateDuration = 1, wavDuration = 10, gain = 1,
      currentTime = 12, lastTime = 0\<rparr>"

definition empty_show_state :: state where
  "empty_show_state =
     \<lparr>activeTab = Show, playlist = [], singleSignal = None, showInterval = 5,
      animateDuration = 1, wavDuration = 10, gain = 1, currentTime = 1 / 2, lastTime = 0\<rparr>"

text \<open>A signal whose samples leave the normalized range.\<close>

definition loud_signal :: ProcessedSignal where
  "loud_signal = \<lparr>id_s = ''single'', name = ''loud.svg'',
                  left = [1 / 2, 3, - 1 / 2], right = [1 / 4, - 7, 1 / 4]\<rparr>"

definition loud_state :: state where
  "loud_state =
     \<lparr>activeTab = Single, playlist = [], singleSignal = Some loud_signal, showInterval = 5,
      animateDuration = 0, wavDuration = 1, gain = 1, currentTime = 0, lastTime = 0\<rparr>"

section \<open>Arithmetic of the remainder\<close>

lemma js_mod_nonneg:
  assumes "0 \<le> a" and "0 < b"
  shows "js_mod (Fin a) (Fin b) = Fin (a - b * of_int \<lfloor>a / b\<rfloor>)"
    and "0 \<le> a - b * of_int \<lfloor>a / b\<rfloor>"
    and "a - b * of_int \<lfloor>a / b\<rfloor> < b"
proof -
  have q: "0 \<le> a / b" using assms by simp
  have l: "of_int \<lfloor>a / b\<rfloor> \<le> a / b" by (rule of_int_floor_le)
  have u: "a / b < of_int \<lfloor>a / b\<rfloor> + 1" by linarith
  have e: "b * (a / b) = a"
    using assms(2) by simp
  have "b * of_int \<lfloor>a / b\<rfloor> \<le> b * (a / b)"
    using l assms(2) by (intro mult_left_mono) simp_all
  then show "0 \<le> a - b * of_int \<lfloor>a / b\<rfloor>"
    using e by simp
  have "b * (a / b) < b * (of_int \<lfloor>a / b\<rfloor> + 1)"
    using u assms(2) by (intro mult_strict_left_mono) simp_all
  then show "a - b * of_int \<lfloor>a / b\<rfloor> < b"
    using e by (simp add: algebra_simps)
  show "js_mod (Fin a) (Fin b) = Fin (a - b * of_int \<lfloor>a / b\<rfloor>)"
    using assms(2) q by (simp add: js_trunc_def)
qed

section \<open>Draw-in progress\<close>

lemma progress_unit:
  assumes "0 \<le> s" and "0 \<le> a" and "0 < a \<or> 0 < s"
  shows "unit_interval (Math_min (Fin 1) (js_div (Fin s) (Fin a)))"
    and "a = 0 \<Longrightarrow> Math_min (Fin 1) (js_div (Fin s) (Fin a)) = Fin 1"
  using assms by (auto simp: signed_inf_def)

lemma visualResolve_audioResolve:
  "visualResolve st time =
     (if activeTab st = Show \<and> playlist st = [] then None else Some (audioResolve st time))"
  by (cases "activeTab st") (simp_all add: visualResolve_def audioResolve_def)

text \<open>
  Claim C2, as stated: the progress is in the unit interval at every non-negative position,
  also when \<open>animateDuration\<close> is 0. The code divides without a guard: at position 0 with
  \<open>animateDuration = 0\<close> the quotient is zero over zero, the progress is NaN in the
  renderer and in the visualization, and NaN is no number of the unit interval.
\<close>

theorem progress_zero_over_zero_counterexample:
  "snd (audioResolve (single_state\<lparr>animateDuration := 0\<rparr>) 0) = NaN
   \<and> \<not> unit_interval (snd (audioResolve (single_state\<lparr>animateDuration := 0\<rparr>) 0))
   \<and> visualResolve (single_state\<lparr>animateDuration := 0\<rparr>) 0 = Some (Some sig3, NaN)"
  by (simp add: audioResolve_def visualResolve_def single_state_def signed_inf_def)

text \<open>
  Claim C2, amended: for a non-negative position, \<open>animateDuration \<ge> 0\<close> and
  \<open>showInterval > 0\<close>, the progress is in the unit interval in both modes, provided
  \<open>animateDuration\<close> and the time it divides (the position in single mode, the segment
  time in show mode) are not both zero; with \<open>animateDuration = 0\<close> the progress is then
  1. The visualization resolves the same pair as the renderer, or nothing.
\<close>

theorem progress_in_unit_interval:
  assumes "0 \<le> time" and "0 \<le> animateDuration st" and "0 < showInterval st"
    and "0 < animateDuration st
         \<or> (if activeTab st = Single then Fin time
             else js_mod (Fin time) (Fin (showInterval st))) \<noteq> Fin 0"
  shows "unit_interval (snd (audioResolve st time))
         \<and> (animateDuration st = 0 \<longrightarrow> snd (audioResolve st time) = Fin 1)
         \<and> (visualResolve st time = None
             \<or> visualResolve st time = Some (audioResolve st time))"
proof -
  obtain s where s:
    "(if activeTab st = Single then Fin time
      else js_mod (Fin time) (Fin (showInterval st))) = Fin s" "0 \<le> s"
    using js_mod_nonneg(1,2) [OF assms(1,3)] assms(1)
    by (cases "activeTab st = Single") auto
  have p: "snd (audioResolve st time)
             = Math_min (Fin 1) (js_div (Fin s) (Fin (animateDuration st)))"
    using s(1) by (auto simp: audioResolve_def Let_def split: if_splits)
  have "0 < animateDuration st \<or> 0 < s"
    using assms(4) s by auto
  then show ?thesis
    using progress_unit [OF s(2) assms(2)] p
    by (auto simp: visualResolve_audioResolve)
qed

theorem progress_in_unit_interval_witness:
  "snd (audioResolve (single_state\<lparr>animateDuration := 0\<rparr>) 1) = Fin 1
   \<and> unit_interval (snd (audioResolve (single_state\<lparr>animateDuration := 0\<rparr>) 1))
   \<and> visualResolve (single_state\<lparr>animateDuration := 0\<rparr>) 1
       = Some (audioResolve (single_state\<lparr>animateDuration := 0\<rparr>) 1)"
proof -
  have "unit_interval (snd (audioResolve (single_state\<lparr>animateDuration := 0\<rparr>) 1))
     \<and> (animateDuration (single_state\<lparr>animateDuration := 0\<rparr>) = 0 \<longrightarrow>
          snd (audioResolve (single_state\<lparr>animateDuration := 0\<rparr>) 1) = Fin 1)
     \<and> (visualResolve (single_state\<lparr>animateDuration := 0\<rparr>) 1 = None
         \<or> visualResolve (single_state\<lparr>animateDuration := 0\<rparr>) 1
             = Some (audioResolve (single_state\<lparr>animateDuration := 0\<rparr>) 1))"
    by (rule progress_in_unit_interval) (simp_all add: single_state_def)
  then show ?thesis
    by (simp add: visualResolve_audioResolve single_state_def)
qed

section \<open>The scan cursor\<close>


section \<open>The timeline tick\<close>

text \<open>
  Claim C4, as stated: in show mode with an empty playlist the looping check never fires.
  The check is \<^verbatim>\<open>newTime >= totalShowDuration\<close> with a total of 0: it fires on the tick,
  and a position of 0.5 s advanced by 16 ms is reset to 0.
\<close>

theorem empty_show_tick_counterexample:
  "activeTab empty_show_state = Show \<and> playlist empty_show_state = []
   \<and> currentTime empty_show_state + (16 - lastTime empty_show_state) / 1000 = 129 / 250
   \<and> wraps empty_show_state (129 / 250)
   \<and> currentTime (update empty_show_state 16) = 0"
  by (simp add: empty_show_state_def update_def wraps_def totalShowDuration_def Let_def)

text \<open>
  Claim C4, amended: in show mode with an empty playlist the total show duration is 0, no
  division takes place, and on every tick (position non-negative, clock not running
  backwards) the looping check fires and sets the position to 0.
\<close>

theorem empty_show_tick_resets:
  assumes "activeTab st = Show" and "playlist st = []"
    and "0 \<le> currentTime st" and "lastTime st \<le> now"
  shows "totalShowDuration st = 0
         \<and> wraps st (currentTime st + (now - lastTime st) / 1000)
         \<and> currentTime (update st now) = 0"
  using assms by (simp add: update_def wraps_def totalShowDuration_def Let_def)

theorem empty_show_tick_resets_witness:
  "totalShowDuration empty_show_state = 0 \<and> currentTime (update empty_show_state 16) = 0"
  using empty_show_tick_resets [of empty_show_state 16]
  by (simp add: empty_show_state_def)

text \<open>
  Claim C5: in show mode with a non-empty playlist (and an interval that is not negative), a
  tick stores
  0 when the updated position reaches or exceeds \<open>playlistLength * showInterval\<close>, and the
  updated position otherwise; the stored position never exceeds that total.
\<close>

theorem show_tick_wraps:
  assumes "activeTab st = Show" and "playlist st \<noteq> []" and "0 \<le> showInterval st"
  shows "currentTime (update st now)
           = (if real (length (playlist st)) * showInterval st
                   \<le> currentTime st + (now - lastTime st) / 1000
              then 0 else currentTime st + (now - lastTime st) / 1000)
         \<and> currentTime (update st now) \<le> real (length (playlist st)) * showInterval st"
proof -
  have "0 \<le> totalShowDuration st"
    using assms(3) by (simp add: totalShowDuration_def)
  then show ?thesis
    using assms(1) by (simp add: update_def wraps_def Let_def totalShowDuration_def)
qed

theorem show_tick_wraps_witness:
  "currentTime (update (show_state\<lparr>currentTime := 14.99\<rparr>) 16) = 0
   \<and> currentTime (update show_state 16) = 12.016"
  using show_tick_wraps [of "show_state\<lparr>currentTime := 14.99\<rparr>" 16]
    show_tick_wraps [of "show_state" 16]
  by (simp add: show_state_def)

section \<open>Configuration updates\<close>

text \<open>
  Claim C9: updating \<open>showInterval\<close> to a value below the current \<open>animateDuration\<close>
  lowers \<open>animateDuration\<close> to the new interval, so that after any update
  \<open>animateDuration \<le> showInterval\<close>; the update is a plain state change that cannot fail.
\<close>

theorem updateShowInterval_clamps:
  "showInterval (updateShowInterval val st) = val
   \<and> animateDuration (updateShowInterval val st)
       = (if val < animateDuration st then val else animateDuration st)
   \<and> animateDuration (updateShowInterval val st) \<le> showInterval (updateShowInterval val st)"
  by (simp add: updateShowInterval_def Let_def)

theorem updateShowInterval_clamps_witness:
  "showInterval (updateShowInterval 3 (show_state\<lparr>animateDuration := 4\<rparr>)) = 3
   \<and> animateDuration (updateShowInterval 3 (show_state\<lparr>animateDuration := 4\<rparr>)) = 3"
  using updateShowInterval_clamps [of 3 "show_state\<lparr>animateDuration := 4\<rparr>"]
  by simp

section \<open>The export size limit\<close>

text \<open>
  Claim C6: with data to export, \<^verbatim>\<open>downloadWav\<close> shows the size-limit alert exactly when
  \<open>dataSize = 48000 * wavDuration * 2 * 2\<close> exceeds \<open>0xFFFFFFFF - 44\<close>; in that case no
  buffer is allocated and no file is produced.
\<close>

theorem export_size_limit:
  assumes "hasData st"
  shows "dataSize st = 48000 * wavDuration st * 2 * 2
         \<and> (alert (downloadWav st maxAlloc) = Some limit_alert
              \<longleftrightarrow> 4294967295 - 44 < dataSize st)
         \<and> (4294967295 - 44 < dataSize st \<longrightarrow>
              allocated (downloadWav st maxAlloc) = None
              \<and> download (downloadWav st maxAlloc) = None)"
  using assms
  by (simp add: downloadWav_def dataSize_def totalSamples_def sampleRate_def channels_def
      bytesPerSample_def limit_alert_def failure_alert_def split: option.split)

theorem export_size_limit_witness:
  "alert (downloadWav (single_state\<lparr>wavDuration := 22370\<rparr>) 5000000000) = Some limit_alert
   \<and> allocated (downloadWav (single_state\<lparr>wavDuration := 22370\<rparr>) 5000000000) = None
   \<and> download (downloadWav (single_state\<lparr>wavDuration := 22370\<rparr>) 5000000000) = None
   \<and> alert (downloadWav (single_state\<lparr>wavDuration := 22369\<rparr>) 5000000000)
       \<noteq> Some limit_alert"
  using export_size_limit [of "single_state\<lparr>wavDuration := 22370\<rparr>" 5000000000]
    export_size_limit [of "single_state\<lparr>wavDuration := 22369\<rparr>" 5000000000]
  by (simp add: single_state_def hasData_def)

section \<open>The gate of the scan loop\<close>

lemma audio_loop_length:
  "length (fst (snd (audio_loop sig progress i phase outL outR))) = length outL
   \<and> length (snd (snd (audio_loop sig progress i phase outL outR))) = length outR"
proof (induction sig progress i phase outL outR rule: audio_loop.induct)
  case (1 sig progress i phase outL outR)
  show ?case
  proof (cases "i < length outL")
    case True
    then show ?thesis
      using "1.IH" by (subst (1 2) audio_loop.simps) (auto simp: Let_def)
  next
    case False
    then show ?thesis by (subst (1 2) audio_loop.simps) simp
  qed
qed

lemma audio_loop_below:
  "j < i \<Longrightarrow>
   fst (snd (audio_loop sig progress i phase outL outR)) ! j = outL ! j
   \<and> snd (snd (audio_loop sig progress i phase outL outR)) ! j = outR ! j"
proof (induction sig progress i phase outL outR rule: audio_loop.induct)
  case (1 sig progress i phase outL outR)
  show ?case
  proof (cases "i < length outL")
    case True
    then show ?thesis
      using "1.IH" "1.prems" by (subst (1 2) audio_loop.simps) (auto simp: Let_def)
  next
    case False
    then show ?thesis by (subst (1 2) audio_loop.simps) simp
  qed
qed

lemma audio_loop_step:
  "i < length outL \<Longrightarrow>
   audio_loop sig progress i phase outL outR =
     audio_loop sig progress (i + 1) (phase + 1)
       (outL[i := fst (scan_frame sig progress phase)])
       (outR[i := snd (scan_frame sig progress phase)])"
  by (subst audio_loop.simps) (simp add: scan_frame_def Let_def del: js_mod.simps)

lemma audio_loop_frame:
  assumes "i \<le> j" and "j < length outL" and "length outR = length outL"
  shows "(fst (snd (audio_loop sig progress i phase outL outR)) ! j,
          snd (snd (audio_loop sig progress i phase outL outR)) ! j)
         = scan_frame sig progress (phase + (j - i))"
  using assms
proof (induction "j - i" arbitrary: i phase outL outR)
  case 0
  then have ji: "j = i" by simp
  show ?case
    unfolding ji using "0.prems"(2,3) ji
    by (simp add: audio_loop_step audio_loop_below)
next
  case (Suc d)
  then have il: "i < length outL" and lt: "i + 1 \<le> j" and d: "d = j - (i + 1)"
    by simp_all
  have e: "phase + 1 + (j - (i + 1)) = phase + (j - i)" using lt by simp
  have "(fst (snd (audio_loop sig progress (i + 1) (phase + 1)
                (outL[i := fst (scan_frame sig progress phase)])
                (outR[i := snd (scan_frame sig progress phase)]))) ! j,
         snd (snd (audio_loop sig progress (i + 1) (phase + 1)
                (outL[i := fst (scan_frame sig progress phase)])
                (outR[i := snd (scan_frame sig progress phase)]))) ! j)
        = scan_frame sig progress (phase + 1 + (j - (i + 1)))"
    using Suc.prems by (intro Suc.hyps(1) [OF d lt]) simp_all
  then show ?case
    unfolding e by (simp only: audio_loop_step [OF il])
qed

lemma js_mod_nat:
  assumes "0 < n"
  shows "js_mod (Fin (real m)) (Fin (real n)) = Fin (real (m mod n))"
proof -
  have f: "\<lfloor>real m / real n\<rfloor> = int (m div n)"
    by (simp add: floor_divide_of_nat_eq)
  have "real m = real (n * (m div n) + m mod n)"
    by simp
  then have "real m = real n * real (m div n) + real (m mod n)"
    by (simp only: of_nat_add of_nat_mult)
  then have "real m - real n * real (m div n) = real (m mod n)"
    by linarith
  then show ?thesis
    using assms f by (simp add: js_trunc_def)
qed

lemma sample_at_nat: "k < length xs \<Longrightarrow> sample_at xs (Fin (real k)) = Fin (xs ! k)"
  by (simp add: sample_at_def)

text \<open>
  Claim C1, as stated: a frame emits the sample pair exactly when
  \<open>idx < floor(signal.length * progress)\<close>. The loop compares \<open>idx\<close> with the product
  itself, \<^verbatim>\<open>signalIdx < signalLen * progress\<close>, without a floor: with 3 samples and
  progress 1/2 the product is 1.5, and the frame with \<open>idx = 1\<close> emits
  \<open>(left[1], right[1])\<close>, although 1 is not below \<open>floor(1.5) = 1\<close>.
\<close>

theorem gating_boundary_counterexample:
  "audioResolve single_state (currentTime single_state) = (Some sig3, Fin (1 / 2))
   \<and> (0 + 1) mod length (left sig3) = 1
   \<and> fst (snd (onaudioprocess single_state 0 [Fin 0, Fin 0, Fin 0] [Fin 0, Fin 0, Fin 0])) ! 1
       = Fin (left sig3 ! 1)
   \<and> snd (snd (onaudioprocess single_state 0 [Fin 0, Fin 0, Fin 0] [Fin 0, Fin 0, Fin 0])) ! 1
       = Fin (right sig3 ! 1)
   \<and> Fin (left sig3 ! 1) \<noteq> Fin 0
   \<and> \<not> spec_visible (length (left sig3)) (1 / 2) 1"
  by (simp add: onaudioprocess_def audioResolve_def single_state_def sig3_def sample_at_def
      js_trunc_def spec_visible_def Let_def audio_loop.simps)

text \<open>
  Claim C1, amended: for a resolved signal (left and right of the same non-zero length)
  and a numeric progress, every output frame with \<open>idx = ScanCursor mod signal.length\<close>
  emits \<open>(left[idx], right[idx])\<close> if and only if \<open>idx < signal.length * progress\<close>, and
  \<open>(0, 0)\<close> otherwise; for the integer \<open>idx\<close> this gate is
  \<open>idx < ceiling(signal.length * progress)\<close>.
\<close>

theorem gating_boundary:
  assumes "audioResolve st (currentTime st) = (Some sig, Fin p)"
    and "0 < length (left sig)" and "length (right sig) = length (left sig)"
    and "length outR = length outL" and "i < length outL"
  shows "(fst (snd (onaudioprocess st phase outL outR)) ! i,
          snd (snd (onaudioprocess st phase outL outR)) ! i)
         = (if real ((phase + i) mod length (left sig)) < real (length (left sig)) * p
            then (Fin (left sig ! ((phase + i) mod length (left sig))),
                  Fin (right sig ! ((phase + i) mod length (left sig))))
            else (Fin 0, Fin 0))
         \<and> (real ((phase + i) mod length (left sig)) < real (length (left sig)) * p
              \<longleftrightarrow> int ((phase + i) mod length (left sig))
                    < \<lceil>real (length (left sig)) * p\<rceil>)"
proof -
  let ?n = "length (left sig)"
  have k: "(phase + i) mod ?n < ?n"
    using assms(2) by simp
  have "onaudioprocess st phase outL outR = audio_loop sig (Fin p) 0 phase outL outR"
    using assms(1) by (simp add: onaudioprocess_def)
  then have "(fst (snd (onaudioprocess st phase outL outR)) ! i,
          snd (snd (onaudioprocess st phase outL outR)) ! i)
         = (if real ((phase + i) mod ?n) < real ?n * p
            then (Fin (left sig ! ((phase + i) mod ?n)), Fin (right sig ! ((phase + i) mod ?n)))
            else (Fin 0, Fin 0))"
    using audio_loop_frame [of 0 i outL outR sig "Fin p" phase] assms(2-5) k
    by (simp add: scan_frame_def Let_def js_mod_nat sample_at_nat del: of_nat_add js_mod.simps)
  moreover have "real ((phase + i) mod ?n) < real ?n * p
              \<longleftrightarrow> int ((phase + i) mod ?n) < \<lceil>real ?n * p\<rceil>"
    by (simp add: less_ceiling_iff)
  ultimately show ?thesis by simp
qed

theorem gating_boundary_witness:
  "(fst (snd (onaudioprocess single_state 0 [Fin 0, Fin 0, Fin 0] [Fin 0, Fin 0, Fin 0])) ! 1,
    snd (snd (onaudioprocess single_state 0 [Fin 0, Fin 0, Fin 0] [Fin 0, Fin 0, Fin 0])) ! 1)
     = (Fin (1 / 2), Fin (1 / 4))
   \<and> (fst (snd (onaudioprocess single_state 0 [Fin 0, Fin 0, Fin 0] [Fin 0, Fin 0, Fin 0])) ! 2,
    snd (snd (onaudioprocess single_state 0 [Fin 0, Fin 0, Fin 0] [Fin 0, Fin 0, Fin 0])) ! 2)
     = (Fin 0, Fin 0)"
proof -
  have r: "audioResolve single_state (currentTime single_state) = (Some sig3, Fin (1 / 2))"
    by (simp add: audioResolve_def single_state_def)
  show ?thesis
    using gating_boundary [OF r, of "[Fin 0, Fin 0, Fin 0]" "[Fin 0, Fin 0, Fin 0]" 1 0]
      gating_boundary [OF r, of "[Fin 0, Fin 0, Fin 0]" "[Fin 0, Fin 0, Fin 0]" 2 0]
    by (simp add: sig3_def)
qed

section \<open>The scan cursor on an installed callback\<close>





section \<open>Gain\<close>

lemma gain_update_select:
  "activeTab (st\<lparr>gain := g\<rparr>) = activeTab st"
  "playlist (st\<lparr>gain := g\<rparr>) = playlist st"
  "singleSignal (st\<lparr>gain := g\<rparr>) = singleSignal st"
  "showInterval (st\<lparr>gain := g\<rparr>) = showInterval st"
  "animateDuration (st\<lparr>gain := g\<rparr>) = animateDuration st"
  "wavDuration (st\<lparr>gain := g\<rparr>) = wavDuration st"
  "currentTime (st\<lparr>gain := g\<rparr>) = currentTime st"
  by simp_all

lemma exportFrame_gain: "exportFrame (st\<lparr>gain := g\<rparr>) i = exportFrame st i"
  unfolding exportFrame_def exportResolve_def totalShowDuration_def gain_update_select ..

lemma hasData_gain: "hasData (st\<lparr>gain := g\<rparr>) = hasData st"
  unfolding hasData_def gain_update_select ..

lemma totalSamples_gain: "totalSamples (st\<lparr>gain := g\<rparr>) = totalSamples st"
  unfolding totalSamples_def gain_update_select ..

lemma dataSize_gain: "dataSize (st\<lparr>gain := g\<rparr>) = dataSize st"
  unfolding dataSize_def totalSamples_gain ..

lemma export_loop_gain:
  "export_loop (st\<lparr>gain := g\<rparr>) i offset buf = export_loop st i offset buf"
proof (induction st i offset buf rule: export_loop.induct)
  case (1 st i offset buf)
  show ?case
    using "1.IH"
    by (subst export_loop.simps [of "st\<lparr>gain := g\<rparr>"], subst export_loop.simps [of st])
      (auto simp: exportFrame_gain totalSamples_gain split: option.splits)
qed

lemma downloadWav_gain: "downloadWav (st\<lparr>gain := g\<rparr>) maxAlloc = downloadWav st maxAlloc"
  unfolding downloadWav_def hasData_gain dataSize_gain export_loop_gain ..

lemma onaudioprocess_gain:
  "onaudioprocess (st\<lparr>gain := g\<rparr>) phase outL outR = onaudioprocess st phase outL outR"
  unfolding onaudioprocess_def audioResolve_def gain_update_select ..

text \<open>
  Claim C10: the outcome of the export, and so the bytes of the file, is the same for any
  two values of \<open>gain\<close>; in the real-time renderer the scan does not read \<open>gain\<close>
  either, and what is heard is the scanned block multiplied by \<open>gain\<close> in the gain node
  behind it.
\<close>

theorem export_ignores_gain:
  "downloadWav (st\<lparr>gain := g1\<rparr>) maxAlloc = downloadWav (st\<lparr>gain := g2\<rparr>) maxAlloc
   \<and> audible (st\<lparr>gain := g\<rparr>) phase outL outR
       = (map (js_mul (Fin g)) (fst (snd (onaudioprocess st phase outL outR))),
          map (js_mul (Fin g)) (snd (snd (onaudioprocess st phase outL outR))))"
  by (simp add: downloadWav_gain audible_def gainNode_def onaudioprocess_gain)

theorem export_ignores_gain_witness:
  "downloadWav (single_state\<lparr>gain := 0\<rparr>) 200000 = downloadWav (single_state\<lparr>gain := 1\<rparr>) 200000
   \<and> audible (single_state\<lparr>gain := 1 / 2\<rparr>) 0 [Fin 0, Fin 0, Fin 0] [Fin 0, Fin 0, Fin 0]
       = ([Fin (1 / 4), Fin (1 / 4), Fin 0], [Fin (1 / 8), Fin (1 / 8), Fin 0])"
proof -
  have "onaudioprocess single_state 0 [Fin 0, Fin 0, Fin 0] [Fin 0, Fin 0, Fin 0]
          = (3, [Fin (1 / 2), Fin (1 / 2), Fin 0], [Fin (1 / 4), Fin (1 / 4), Fin 0])"
    by (simp add: onaudioprocess_def audioResolve_def single_state_def sig3_def sample_at_def
        js_trunc_def Let_def audio_loop.simps)
  then show ?thesis
    using export_ignores_gain [where st = single_state and ?g1.0 = 0 and ?g2.0 = 1
        and maxAlloc = 200000 and g = "1 / 2" and phase = 0
        and outL = "[Fin 0, Fin 0, Fin 0]" and outR = "[Fin 0, Fin 0, Fin 0]"]
    by simp
qed

section \<open>The header of the exported file\<close>

lemma header_fields:
  assumes "44 \<le> n"
  shows "\<exists>h. writeHeader d (replicate n 0) = Some h \<and> length h = n
             \<and> h ! 4 = ucast (ToUint32 (Fin (36 + d)))
             \<and> h ! 5 = ucast (drop_bit 8 (ToUint32 (Fin (36 + d))))
             \<and> h ! 6 = ucast (drop_bit 16 (ToUint32 (Fin (36 + d))))
             \<and> h ! 7 = ucast (drop_bit 24 (ToUint32 (Fin (36 + d))))
             \<and> h ! 40 = ucast (ToUint32 (Fin d))
             \<and> h ! 41 = ucast (drop_bit 8 (ToUint32 (Fin d)))
             \<and> h ! 42 = ucast (drop_bit 16 (ToUint32 (Fin d)))
             \<and> h ! 43 = ucast (drop_bit 24 (ToUint32 (Fin d)))"
  using assms
  by (simp add: writeHeader_def setUint8_def setUint32_def setUint16_def set16_def Let_def)

lemma export_loop_succeeds:
  assumes "\<And>j. exportFrame st j \<noteq> None"
    and "44 \<le> offset"
    and "offset + 4 * (nat \<lceil>totalSamples st\<rceil> - i) \<le> length buf"
  shows "\<exists>out. export_loop st i offset buf = Some out \<and> length out = length buf
               \<and> take 44 out = take 44 buf"
  using assms
proof (induction st i offset buf rule: export_loop.induct)
  case (1 st i offset buf)
  show ?case
  proof (cases "real i < totalSamples st")
    case False
    then show ?thesis by (subst export_loop.simps) simp
  next
    case True
    have "real i < of_int \<lceil>totalSamples st\<rceil>"
      using True le_of_int_ceiling [of "totalSamples st"] by linarith
    then have "i < nat \<lceil>totalSamples st\<rceil>"
      by linarith
    then have room: "offset + 4 \<le> length buf"
      and rest: "offset + 2 + 2 + 4 * (nat \<lceil>totalSamples st\<rceil> - (i + 1)) \<le> length buf"
      using "1.prems"(3) by simp_all
    obtain l r where fr: "exportFrame st i = Some (l, r)"
      using "1.prems"(1) [of i] by (cases "exportFrame st i") auto
    define b1 where "b1 = buf[offset := ucast (ToInt16 l), offset + 1 := ucast (drop_bit 8 (ToInt16 l))]"
    define b2 where "b2 = b1[offset + 2 := ucast (ToInt16 r), offset + 2 + 1 := ucast (drop_bit 8 (ToInt16 r))]"
    have s1: "setInt16 buf offset l = Some b1"
      using room by (simp add: setInt16_def set16_def b1_def)
    have s2: "setInt16 b1 (offset + 2) r = Some b2"
      using room by (simp add: setInt16_def set16_def b1_def b2_def)
    have len: "length b2 = length buf" and pre: "take 44 b2 = take 44 buf"
      using "1.prems"(2) by (simp_all add: b1_def b2_def)
    have "\<exists>out. export_loop st (i + 1) (offset + 2 + 2) b2 = Some out
            \<and> length out = length b2 \<and> take 44 out = take 44 b2"
      using "1.prems"(1,2) rest len
      by (intro "1.IH" [OF True fr refl s1 s2]) simp_all
    then show ?thesis
      using True fr s1 s2 len pre by (subst export_loop.simps) simp
  qed
qed

lemma show_index_defined:
  assumes "0 \<le> t" and "0 < s" and "xs \<noteq> []"
  shows "js_index xs
           (js_mod (Math_floor (js_div (js_mod (Fin t) (Fin (real (length xs) * s))) (Fin s)))
              (Fin (real (length xs)))) \<noteq> None"
proof -
  let ?n = "length xs"
  let ?m = "t - (real ?n * s) * of_int \<lfloor>t / (real ?n * s)\<rfloor>"
  have n: "0 < real ?n" using assms(3) by simp
  have tot: "0 < real ?n * s" using n assms(2) by simp
  have m: "js_mod (Fin t) (Fin (real ?n * s)) = Fin ?m" "0 \<le> ?m" "?m < real ?n * s"
    using js_mod_nonneg [OF assms(1) tot] by blast+
  have q0: "0 \<le> ?m / s" using m(2) assms(2) by simp
  have q1: "?m / s < real ?n" using m(3) assms(2) by (simp only: pos_divide_less_eq)
  define k where "k = nat \<lfloor>?m / s\<rfloor>"
  have k0: "0 \<le> \<lfloor>?m / s\<rfloor>" using q0 by simp
  have "\<lfloor>?m / s\<rfloor> < int ?n" using q1 by (simp only: floor_less_iff of_int_of_nat_eq)
  then have nk: "k < ?n" unfolding k_def using k0 by linarith
  have "of_int \<lfloor>?m / s\<rfloor> = real k"
    using k0 by (simp add: k_def)
  moreover have "js_div (Fin ?m) (Fin s) = Fin (?m / s)"
    using assms(2) by simp
  ultimately have fl: "Math_floor (js_div (Fin ?m) (Fin s)) = Fin (real k)"
    by (simp only: Math_floor.simps)
  have md: "js_mod (Fin (real k)) (Fin (real ?n)) = Fin (real k)"
    using js_mod_nat [of ?n k] assms(3) nk by (simp del: js_mod.simps)
  have "js_index xs (Fin (real k)) = Some (xs ! k)"
    using nk by simp
  then show ?thesis
    by (simp only: m(1) fl md) simp
qed

lemma if_Some_defined: "(if c then Some a else Some b) \<noteq> None"
  by simp

lemma exportFrame_resolved:
  assumes "exportResolve st (real j / sampleRate) = Some (sg, p)"
  shows "exportFrame st j \<noteq> None"
  unfolding exportFrame_def Let_def assms
  by (simp only: option.case prod.case if_Some_defined not_False_eq_True)

lemma exportFrame_defined:
  assumes "hasData st" and "activeTab st = Single \<or> 0 < showInterval st"
  shows "exportFrame st j \<noteq> None"
proof (cases "activeTab st = Single")
  case True
  then obtain sg where "singleSignal st = Some sg"
    using assms(1) by (auto simp: hasData_def)
  then have "\<exists>p. exportResolve st (real j / sampleRate) = Some (sg, p)"
    unfolding exportResolve_def using True by (simp del: js_div.simps Math_min.simps)
  then show ?thesis
    using exportFrame_resolved by blast
next
  case False
  then have pl: "playlist st \<noteq> []" and si: "0 < showInterval st"
    using assms by (simp_all add: hasData_def)
  then have tot: "0 < totalShowDuration st"
    by (simp add: totalShowDuration_def)
  have t: "0 \<le> real j / sampleRate" by (simp add: sampleRate_def)
  have "js_index (playlist st)
           (js_mod (Math_floor (js_div (js_mod (Fin (real j / sampleRate))
               (Fin (real (length (playlist st)) * showInterval st))) (Fin (showInterval st))))
              (Fin (real (length (playlist st))))) \<noteq> None"
    by (rule show_index_defined [OF t si pl])
  then obtain sg where
    "js_index (playlist st)
           (js_mod (Math_floor (js_div (js_mod (Fin (real j / sampleRate))
               (Fin (totalShowDuration st))) (Fin (showInterval st))))
              (Fin (real (length (playlist st))))) = Some sg"
    unfolding totalShowDuration_def by blast
  then have "\<exists>p. exportResolve st (real j / sampleRate) = Some (sg, p)"
    unfolding exportResolve_def Let_def using False tot
    by (simp del: js_div.simps Math_min.simps js_mod.simps Math_floor.simps js_index.simps)
  then show ?thesis
    using exportFrame_resolved by blast
qed

text \<open>
  Claim C7: for \<open>wavDuration = 1\<close> at 48000 Hz (with data to export, in show mode a
  positive \<open>showInterval\<close>, and a host that can allocate the buffer) the export produces
  a file:
  \<open>dataSize\<close> is \<open>48000 * 2 * 2 = 192000\<close>, the file is \<open>44 + dataSize\<close> bytes long, the
  little-endian field at offset 4 is \<open>36 + dataSize\<close> and the one at offset 40 is
  \<open>dataSize\<close>.
\<close>

theorem wav_header_layout:
  assumes "hasData st" and "activeTab st = Single \<or> 0 < showInterval st"
    and "wavDuration st = 1" and "192044 \<le> maxAlloc"
  shows "dataSize st = 192000
         \<and> alert (downloadWav st maxAlloc) = None
         \<and> (\<exists>bytes. download (downloadWav st maxAlloc) = Some bytes
               \<and> length bytes = 44 + 192000
               \<and> getUint32 bytes 4 = 36 + 192000
               \<and> getUint32 bytes 40 = 192000)"
proof -
  define n :: nat where "n = 192044"
  have n44: "44 \<le> n" and nm: "\<not> maxAlloc < n"
    using assms(4) by (simp_all add: n_def)
  have ts: "totalSamples st = 48000"
    using assms(3) by (simp add: totalSamples_def sampleRate_def)
  have ds: "dataSize st = 192000"
    using ts by (simp add: dataSize_def channels_def bytesPerSample_def)
  have ix: "ToIndex (44 + dataSize st) = Some n"
    by (simp add: ds ToIndex_def js_trunc_def n_def)
  have lim: "\<not> 4294967295 - 44 < dataSize st"
    by (simp add: ds)
  obtain h where h: "writeHeader (dataSize st) (replicate n 0) = Some h" "length h = n"
    "h ! 4 = ucast (ToUint32 (Fin (36 + dataSize st)))"
    "h ! 5 = ucast (drop_bit 8 (ToUint32 (Fin (36 + dataSize st))))"
    "h ! 6 = ucast (drop_bit 16 (ToUint32 (Fin (36 + dataSize st))))"
    "h ! 7 = ucast (drop_bit 24 (ToUint32 (Fin (36 + dataSize st))))"
    "h ! 40 = ucast (ToUint32 (Fin (dataSize st)))"
    "h ! 41 = ucast (drop_bit 8 (ToUint32 (Fin (dataSize st))))"
    "h ! 42 = ucast (drop_bit 16 (ToUint32 (Fin (dataSize st))))"
    "h ! 43 = ucast (drop_bit 24 (ToUint32 (Fin (dataSize st))))"
    using header_fields [OF n44, of "dataSize st"] by blast
  have room: "44 + 4 * (nat \<lceil>totalSamples st\<rceil> - 0) \<le> length h"
    by (simp add: ts h(2) n_def)
  have "\<exists>out. export_loop st 0 44 h = Some out \<and> length out = length h
               \<and> take 44 out = take 44 h"
    using exportFrame_defined [OF assms(1,2)] room
    by (intro export_loop_succeeds) simp_all
  then obtain out where out: "export_loop st 0 44 h = Some out" "length out = n"
    "take 44 out = take 44 h"
    using h(2) by blast
  have nth: "out ! k = h ! k" if "k < 44" for k
  proof -
    have "out ! k = take 44 out ! k" "h ! k = take 44 h ! k"
      using that by simp_all
    then show ?thesis using out(3) by simp
  qed
  have w36: "ToUint32 (Fin (36 + dataSize st)) = 192036"
    and w: "ToUint32 (Fin (dataSize st)) = 192000"
    by (simp_all add: ds js_trunc_def)
  have f4: "getUint32 out 4 = 36 + 192000"
    unfolding getUint32_def by (simp add: nth h(3-6) w36 del: ToUint32.simps)
  have f40: "getUint32 out 40 = 192000"
    unfolding getUint32_def by (simp add: nth h(7-10) w del: ToUint32.simps)
  have "downloadWav st maxAlloc = \<lparr>alert = None, allocated = Some n, download = Some out\<rparr>"
    unfolding downloadWav_def using assms(1) lim nm by (simp add: ix h(1) out(1))
  then show ?thesis
    using ds out(2) f4 f40 by (simp add: n_def)
qed

theorem wav_header_layout_witness:
  "dataSize single_state = 192000
   \<and> alert (downloadWav single_state 200000) = None
   \<and> (\<exists>bytes. download (downloadWav single_state 200000) = Some bytes
         \<and> length bytes = 44 + 192000
         \<and> getUint32 bytes 4 = 36 + 192000
         \<and> getUint32 bytes 40 = 192000)"
proof -
  have "hasData single_state"
    "activeTab single_state = Single \<or> 0 < showInterval single_state"
    "wavDuration single_state = 1" "(192044::nat) \<le> 200000"
    by (simp_all add: single_state_def hasData_def)
  then show ?thesis
    by (rule wav_header_layout)
qed

section \<open>Clamping before quantization\<close>

lemma quantize_Fin:
  "quantize (Fin x) =
     Fin (if max (- 1) (min 1 x) < 0 then max (- 1) (min 1 x) * 32768
          else max (- 1) (min 1 x) * 32767)"
  by (simp add: quantize_def Let_def max_def min_def)

lemma quantize_range: "int16_range (quantize (Fin x))"
proof -
  let ?c = "max (- 1) (min 1 x)"
  have c: "- 1 \<le> ?c" "?c \<le> 1" by simp_all
  have "- 32768 \<le> ?c * 32768" using c(1) by simp
  moreover have "?c * 32767 \<le> 32767" using c(2) by simp
  moreover have "?c < 0 \<Longrightarrow> ?c * 32768 \<le> 32767" by (simp add: mult_less_0_iff)
  moreover have "\<not> ?c < 0 \<Longrightarrow> - 32768 \<le> ?c * 32767" by simp
  ultimately show ?thesis
    unfolding quantize_Fin by (simp del: max_less_iff_conj)
qed

lemma quantize_NaN: "quantize NaN = NaN"
  by (simp add: quantize_def)

lemma quantize_sample: "quantize (sample_at xs i) = NaN \<or> int16_range (quantize (sample_at xs i))"
  by (cases "js_index xs i") (simp_all add: sample_at_def quantize_NaN quantize_range)

lemma stored_exactly:
  assumes "int16_range (Fin q)"
  shows "sint (ToInt16 (Fin q)) = js_trunc q"
proof -
  have "- 32768 \<le> js_trunc q" "js_trunc q < 32768"
    using assms by (auto simp: js_trunc_def le_floor_iff floor_less_iff le_ceiling_iff ceiling_less_iff)
  then have "signed_take_bit 15 (js_trunc q) = js_trunc q"
    by (intro signed_take_bit_int_eq_self) simp_all
  then show ?thesis
    by (simp add: sint_sbintrunc')
qed

text \<open>
  Claim C8: every sample value, whatever its size, is clamped to \<open>[-1, 1]\<close> and scaled to a
  number of \<open>[-32768, 32767]\<close> before \<^verbatim>\<open>setInt16\<close>; every number that a frame of the
  export hands to \<^verbatim>\<open>setInt16\<close> is such a number, or NaN where the signal has no sample
  at the index (which \<^verbatim>\<open>setInt16\<close> stores as 0); and a number of that range is stored as
  its truncation, without wrapping around.
\<close>

theorem export_samples_clamped:
  "int16_range (quantize (Fin x))
   \<and> (exportFrame st i = Some (l, r) \<longrightarrow>
        (l = NaN \<or> int16_range l) \<and> (r = NaN \<or> int16_range r))
   \<and> (int16_range (Fin q) \<longrightarrow> sint (ToInt16 (Fin q)) = js_trunc q)
   \<and> sint (ToInt16 NaN) = 0"
proof -
  have "(l = NaN \<or> int16_range l) \<and> (r = NaN \<or> int16_range r)"
    if fr: "exportFrame st i = Some (l, r)"
  proof (cases "exportResolve st (real i / sampleRate)")
    case None
    then show ?thesis using fr by (simp add: exportFrame_def)
  next
    case (Some a)
    obtain sg p where a: "a = (sg, p)" by (cases a)
    show ?thesis
      using fr quantize_sample unfolding exportFrame_def Some a Let_def
      by (auto simp only: option.case prod.case split: if_splits intro: int16_range.simps(1) [THEN iffD2])
  qed
  moreover have "sint (ToInt16 NaN) = 0"
    by simp
  ultimately show ?thesis
    using quantize_range stored_exactly by blast
qed

theorem export_samples_clamped_witness:
  "exportFrame loud_state 1 = Some (Fin 32767, Fin (- 32768))
   \<and> int16_range (quantize (Fin 3))
   \<and> int16_range (Fin 32767) \<and> int16_range (Fin (- 32768))
   \<and> sint (ToInt16 (Fin (- 32768))) = js_trunc (- 32768)"
proof -
  have "exportFrame loud_state 1 = Some (Fin 32767, Fin (- 32768))"
    by (simp add: exportFrame_def exportResolve_def loud_state_def loud_signal_def
        sampleRate_def quantize_def sample_at_def js_trunc_def signed_inf_def Let_def)
  then show ?thesis
    using export_samples_clamped [of 3 loud_state 1 "Fin 32767" "Fin (- 32768)" "- 32768"]
    by simp
qed

end
